theory Spec2Isabelle
  imports Complex_Main "HOL-Library.Word"
begin

section \<open>The codebase review script\<close>

text \<open>
  A shallow embedding of \<^verbatim>\<open>.github/scripts/claude-review.py\<close>: the class
  \<^verbatim>\<open>ClaudeCodebaseReviewer\<close> and the script's entry point. Every method is a
  HOL function of the same name. What a method reads from outside the process (the
  environment, the file system, the replies of the two remote services) is an argument
  of the function; an exception is a value \<open>Inl e\<close> of a sum type.
\<close>

subsection \<open>Source files and the batcher\<close>

text \<open>
  A collected file is the dict \<^verbatim>\<open>{'path': ..., 'content': ...}\<close>. Both values are
  Python strings, sequences of code points; the element type is left open, so that
  \<open>length\<close> counts what \<^verbatim>\<open>len\<close> counts.
\<close>

record 'c SourceFile =
  path :: "'c list"
  content :: "'c list"

text \<open>\<^verbatim>\<open>file_tokens = len(file['content']) // 4\<close>: floor division of Python ints.\<close>

definition file_tokens :: "'c SourceFile \<Rightarrow> int" where
  "file_tokens file = int (length (content file)) div 4"

text \<open>
  The loop of \<^verbatim>\<open>chunk_files_for_review\<close> over \<^verbatim>\<open>files\<close>, with its three
  variables \<^verbatim>\<open>chunks\<close>, \<^verbatim>\<open>current_chunk\<close> and \<^verbatim>\<open>current_size\<close> passed
  along and returned.
\<close>

fun chunk_loop ::
  "int \<Rightarrow> 'c SourceFile list list \<Rightarrow> 'c SourceFile list \<Rightarrow> int \<Rightarrow> 'c SourceFile list
    \<Rightarrow> 'c SourceFile list list \<times> 'c SourceFile list \<times> int" where
  "chunk_loop max_tokens chunks current_chunk current_size [] =
     (chunks, current_chunk, current_size)"
| "chunk_loop max_tokens chunks current_chunk current_size (file # files) =
     (if current_size + file_tokens file > max_tokens
      then chunk_loop max_tokens
             (if current_chunk \<noteq> [] then chunks @ [current_chunk] else chunks)
             [file] (file_tokens file) files
      else chunk_loop max_tokens chunks
             (current_chunk @ [file]) (current_size + file_tokens file) files)"

text \<open>The statements after the loop: the last chunk is appended when it is not empty.\<close>

fun close_chunks ::
  "'c SourceFile list list \<times> 'c SourceFile list \<times> int \<Rightarrow> 'c SourceFile list list" where
  "close_chunks (chunks, current_chunk, current_size) =
     (if current_chunk \<noteq> [] then chunks @ [current_chunk] else chunks)"

definition chunk_files_for_review ::
  "'c SourceFile list \<Rightarrow> int \<Rightarrow> 'c SourceFile list list" where
  "chunk_files_for_review files max_tokens =
     close_chunks (chunk_loop max_tokens [] [] 0 files)"

text \<open>The estimate of a batch: the sum of the estimates of its files.\<close>

definition batch_tokens :: "'c SourceFile list \<Rightarrow> int" where
  "batch_tokens batch = sum_list (map file_tokens batch)"

subsection \<open>JSON values, exceptions and issues\<close>

text \<open>
  What \<^verbatim>\<open>json.loads\<close> returns: \<^verbatim>\<open>None\<close>, a bool, an int, a float (its 64 bits),
  a str, a list or a dict. A dict is the list of its items in insertion order; a dict
  holds a key once, and \<open>map_of\<close> reads the entry of a key. A str of a JSON value is a
  \<open>string\<close>, one \<open>char\<close> for each character; the keys and values the script compares
  with are ASCII. An issue is such a value: the script checks nowhere that it is a dict
  or which keys it has.
\<close>

datatype json =
  JNull
  | JBool bool
  | JInt int
  | JFloat "64 word"
  | JStr string
  | JArr "json list"
  | JObj "(string \<times> json) list"

text \<open>The exceptions (all subclasses of \<^verbatim>\<open>Exception\<close>) the script can meet.\<close>

datatype py_error =
  ValueError
  | KeyError
  | IndexError
  | AttributeError
  | TypeError
  | OSError
  | JSONDecodeError
  | RemoteError

text \<open>
  \<^verbatim>\<open>x.get(key, dflt)\<close>: only a dict has the method, every other value raises
  \<^verbatim>\<open>AttributeError\<close>. \<^verbatim>\<open>x.get(key)\<close> is \<open>dict_get x key JNull\<close>.
\<close>

fun dict_get :: "json \<Rightarrow> string \<Rightarrow> json \<Rightarrow> py_error + json" where
  "dict_get (JObj items) key dflt =
     Inr (case map_of items key of Some v \<Rightarrow> v | None \<Rightarrow> dflt)"
| "dict_get _ key dflt = Inl AttributeError"

text \<open>
  The comprehension \<^verbatim>\<open>[i for i in issues if i.get('severity') in wanted]\<close>;
  \<^verbatim>\<open>i.get('severity') == 'critical'\<close> is the case \<open>wanted = [''critical'']\<close>. It
  raises at the first element that is not a dict.
\<close>

fun select_severity :: "string list \<Rightarrow> json list \<Rightarrow> py_error + json list" where
  "select_severity wanted [] = Inr []"
| "select_severity wanted (i # rest) =
     (case dict_get i ''severity'' JNull of
        Inl e \<Rightarrow> Inl e
      | Inr sev \<Rightarrow>
          (case select_severity wanted rest of
             Inl e \<Rightarrow> Inl e
           | Inr kept \<Rightarrow> Inr (if sev \<in> set (map JStr wanted) then i # kept else kept)))"

text \<open>
  The first three statements of \<^verbatim>\<open>create_github_issues\<close>: the lists
  \<^verbatim>\<open>critical_issues\<close>, \<^verbatim>\<open>high_issues\<close> and \<^verbatim>\<open>other_issues\<close>.
\<close>

definition severity_partition ::
  "json list \<Rightarrow> py_error + (json list \<times> json list \<times> json list)" where
  "severity_partition issues =
     (case select_severity [''critical''] issues of
        Inl e \<Rightarrow> Inl e
      | Inr critical_issues \<Rightarrow>
          (case select_severity [''high''] issues of
             Inl e \<Rightarrow> Inl e
           | Inr high_issues \<Rightarrow>
               (case select_severity [''medium'', ''low''] issues of
                  Inl e \<Rightarrow> Inl e
                | Inr other_issues \<Rightarrow> Inr (critical_issues, high_issues, other_issues))))"

subsection \<open>The summary report\<close>

text \<open>
  A list or a dict is not hashable: using one as a dict key raises \<^verbatim>\<open>TypeError\<close>.
\<close>

fun hashable :: "json \<Rightarrow> bool" where
  "hashable (JArr xs) = False"
| "hashable (JObj items) = False"
| "hashable _ = True"

text \<open>
  \<^verbatim>\<open>categories[cat] = categories.get(cat, 0) + 1\<close> on a dict kept as its item list:
  a key that is present keeps its place, a new key goes last. Keys are compared with
  the equality of HOL, which is the equality of Python on str keys. Python takes
  \<^verbatim>\<open>1\<close>, \<^verbatim>\<open>True\<close> and \<^verbatim>\<open>1.0\<close> for one key and this list does not; with such a
  key both end in the \<^verbatim>\<open>AttributeError\<close> of \<^verbatim>\<open>title\<close>, so the difference shows in
  no result.
\<close>

fun dict_incr :: "'k \<Rightarrow> ('k \<times> nat) list \<Rightarrow> ('k \<times> nat) list" where
  "dict_incr k [] = [(k, 1)]"
| "dict_incr k ((k', n) # rest) =
     (if k' = k then (k', n + 1) # rest else (k', n) # dict_incr k rest)"

text \<open>The loop of \<^verbatim>\<open>generate_summary_report\<close> that fills \<^verbatim>\<open>categories\<close>.\<close>

fun count_categories :: "(json \<times> nat) list \<Rightarrow> json list \<Rightarrow> py_error + (json \<times> nat) list" where
  "count_categories categories [] = Inr categories"
| "count_categories categories (issue # rest) =
     (case dict_get issue ''category'' (JStr ''general'') of
        Inl e \<Rightarrow> Inl e
      | Inr cat \<Rightarrow>
          if hashable cat then count_categories (dict_incr cat categories) rest
          else Inl TypeError)"

text \<open>
  The loop that writes one line \<^verbatim>\<open>- {cat.title()}: {count}\<close> for each category; only a
  str has \<^verbatim>\<open>title\<close>. A line is kept as the pair of the category and its count.
\<close>

fun category_lines :: "(json \<times> nat) list \<Rightarrow> py_error + (string \<times> nat) list" where
  "category_lines [] = Inr []"
| "category_lines ((JStr cat, n) # rest) =
     (case category_lines rest of
        Inl e \<Rightarrow> Inl e
      | Inr ls \<Rightarrow> Inr ((cat, n) # ls))"
| "category_lines ((_, n) # rest) = Inl AttributeError"

text \<open>
  The report of \<^verbatim>\<open>generate_summary_report\<close>: the numbers its text shows, in the order
  of the text. \<^verbatim>\<open>sorted(..., key=lambda x: x[1], reverse=True)\<close> is a stable sort on
  the count, largest first.
\<close>

record summary_report =
  total_issues :: nat
  critical_count :: nat
  high_count :: nat
  medium_count :: nat
  low_count :: nat
  category_counts :: "(string \<times> nat) list"

definition summary_report_of :: "json list \<Rightarrow> py_error + summary_report" where
  "summary_report_of all_issues =
     (case select_severity [''critical''] all_issues of
        Inl e \<Rightarrow> Inl e
      | Inr crit \<Rightarrow>
     (case select_severity [''high''] all_issues of
        Inl e \<Rightarrow> Inl e
      | Inr high \<Rightarrow>
     (case select_severity [''medium''] all_issues of
        Inl e \<Rightarrow> Inl e
      | Inr medium \<Rightarrow>
     (case select_severity [''low''] all_issues of
        Inl e \<Rightarrow> Inl e
      | Inr low \<Rightarrow>
     (case count_categories [] all_issues of
        Inl e \<Rightarrow> Inl e
      | Inr categories \<Rightarrow>
     (case category_lines (sort_key (\<lambda>x. - int (snd x)) categories) of
        Inl e \<Rightarrow> Inl e
      | Inr ls \<Rightarrow>
          Inr \<lparr>total_issues = length all_issues,
               critical_count = length crit,
               high_count = length high,
               medium_count = length medium,
               low_count = length low,
               category_counts = ls\<rparr>))))))"

subsection \<open>The outside world\<close>

text \<open>
  A label of the issue tracker, named by the value the script formats into its name:
  \<^verbatim>\<open>severity:{...}\<close>, \<^verbatim>\<open>category:{...}\<close>, \<^verbatim>\<open>claude-review\<close>, \<^verbatim>\<open>automated\<close>
  and \<^verbatim>\<open>summary\<close>.
\<close>

datatype label =
  SeverityLabel json
  | CategoryLabel json
  | ClaudeReviewLabel
  | AutomatedLabel
  | SummaryLabel

text \<open>
  What the process does to the outside, in the order it does it: the call of
  \<^verbatim>\<open>get_repo\<close>, the walk over the files, the request for the review of the n-th chunk,
  the writing of \<^verbatim>\<open>review_summary.md\<close>, and the calls of the issue tracker
  (\<^verbatim>\<open>get_label\<close>, \<^verbatim>\<open>create_label\<close> with its colour, \<^verbatim>\<open>create_issue\<close> for one
  issue with its labels, \<^verbatim>\<open>create_issue\<close> for the summary with the number in its
  title and, for each category, the issues its section lists).
\<close>

datatype event =
  GetRepo
  | CollectFiles
  | ReviewRequest nat
  | WriteReport
  | GetLabel label
  | CreateLabel label string
  | CreateIssue json "label list"
  | CreateSummaryIssue nat "(string \<times> nat \<times> json list) list"

text \<open>
  The world the script runs in. \<open>environ\<close> is \<^verbatim>\<open>os.environ\<close>; \<open>get_repo_ok\<close>
  tells whether the clients are built and \<^verbatim>\<open>get_repo\<close> returns;
  \<open>codebase_files\<close> is what \<^verbatim>\<open>get_codebase_files\<close> finds on the disk;
  \<open>api_reply n chunk\<close> is the outcome of \<^verbatim>\<open>messages.create\<close> for the n-th chunk,
  an exception or the texts of the content blocks of the response; \<open>json_loads\<close> is
  \<^verbatim>\<open>json.loads\<close>; \<open>write_ok\<close> tells whether the report file can be written; and
  \<open>tracker evs\<close> tells whether the call of the issue tracker that \<open>evs\<close> ends with
  returns (it raises otherwise).
\<close>

record 'c world =
  environ :: "string \<rightharpoonup> string"
  get_repo_ok :: bool
  codebase_files :: "'c SourceFile list"
  api_reply :: "nat \<Rightarrow> 'c SourceFile list \<Rightarrow> py_error + string list"
  json_loads :: "string \<Rightarrow> py_error + json"
  write_ok :: bool
  tracker :: "event list \<Rightarrow> bool"

subsection \<open>The review client\<close>

text \<open>The keys of \<^verbatim>\<open>self.review_prompts\<close>.\<close>

definition review_prompts :: "string list" where
  "review_prompts =
     [''comprehensive'', ''security'', ''performance'', ''architecture'', ''bugs'']"

text \<open>
  \<^verbatim>\<open>re.search(r'\{.*\}', response_text, re.DOTALL)\<close> and \<^verbatim>\<open>group()\<close> of its
  match: the search takes the leftmost opening brace that a closing brace follows, which
  is the first opening brace, and the greedy \<^verbatim>\<open>.*\<close>, which matches every character,
  runs to the last closing brace.
\<close>

definition re_search_braces :: "string \<Rightarrow> string option" where
  "re_search_braces response_text =
     (case dropWhile (\<lambda>c. c \<noteq> CHR ''{'') response_text of
        [] \<Rightarrow> None
      | opening # rest \<Rightarrow>
          if CHR ''}'' \<in> set rest
          then Some (opening # rev (dropWhile (\<lambda>c. c \<noteq> CHR ''}'') (rev rest)))
          else None)"

text \<open>
  The body of the \<^verbatim>\<open>try\<close> of \<^verbatim>\<open>review_chunk\<close>, from the reply of the service on:
  \<^verbatim>\<open>response.content[0].text\<close>, the search, \<^verbatim>\<open>json.loads\<close> and
  \<^verbatim>\<open>issues_data.get('issues', [])\<close>.
\<close>

definition review_chunk_try ::
  "(string \<Rightarrow> py_error + json) \<Rightarrow> py_error + string list \<Rightarrow> py_error + json" where
  "review_chunk_try loads reply =
     (case reply of
        Inl e \<Rightarrow> Inl e
      | Inr blocks \<Rightarrow>
          (case blocks of
             [] \<Rightarrow> Inl IndexError
           | response_text # _ \<Rightarrow>
               (case re_search_braces response_text of
                  None \<Rightarrow> Inr (JArr [])
                | Some json_match \<Rightarrow>
                    (case loads json_match of
                       Inl e \<Rightarrow> Inl e
                     | Inr issues_data \<Rightarrow> dict_get issues_data ''issues'' (JArr [])))))"

text \<open>
  \<^verbatim>\<open>review_chunk\<close> for the n-th chunk. The prompt is built before the \<^verbatim>\<open>try\<close>:
  \<^verbatim>\<open>self.review_prompts[self.review_type]\<close> raises \<^verbatim>\<open>KeyError\<close> for a review type
  that is not a key. Every exception of the \<^verbatim>\<open>try\<close> is caught and gives \<^verbatim>\<open>[]\<close>.
\<close>

definition review_chunk ::
  "'c world \<Rightarrow> string \<Rightarrow> nat \<Rightarrow> 'c SourceFile list \<Rightarrow> event list
    \<Rightarrow> (py_error + json) \<times> event list" where
  "review_chunk w review_type n files_chunk evs =
     (if review_type \<notin> set review_prompts then (Inl KeyError, evs)
      else
        (case review_chunk_try (json_loads w) (api_reply w n files_chunk) of
           Inl e \<Rightarrow> (Inr (JArr []), evs @ [ReviewRequest n])
         | Inr issues \<Rightarrow> (Inr issues, evs @ [ReviewRequest n])))"

text \<open>
  \<^verbatim>\<open>all_issues.extend(issues)\<close>: a list gives its elements, a str its characters, a
  dict its keys; nothing else can be iterated.
\<close>

fun list_extend :: "json list \<Rightarrow> json \<Rightarrow> py_error + json list" where
  "list_extend all_issues (JArr xs) = Inr (all_issues @ xs)"
| "list_extend all_issues (JStr s) = Inr (all_issues @ map (\<lambda>c. JStr [c]) s)"
| "list_extend all_issues (JObj items) = Inr (all_issues @ map (\<lambda>kv. JStr (fst kv)) items)"
| "list_extend all_issues _ = Inl TypeError"

text \<open>The loop of \<^verbatim>\<open>run\<close> over \<^verbatim>\<open>enumerate(chunks, 1)\<close>.\<close>

fun review_all ::
  "'c world \<Rightarrow> string \<Rightarrow> nat \<Rightarrow> 'c SourceFile list list \<Rightarrow> json list \<Rightarrow> event list
    \<Rightarrow> (py_error + json list) \<times> event list" where
  "review_all w review_type n [] all_issues evs = (Inr all_issues, evs)"
| "review_all w review_type n (chunk # chunks) all_issues evs =
     (case review_chunk w review_type n chunk evs of
        (Inl e, evs1) \<Rightarrow> (Inl e, evs1)
      | (Inr issues, evs1) \<Rightarrow>
          (case list_extend all_issues issues of
             Inl e \<Rightarrow> (Inl e, evs1)
           | Inr all_issues1 \<Rightarrow> review_all w review_type (Suc n) chunks all_issues1 evs1))"

text \<open>
  \<^verbatim>\<open>generate_summary_report\<close>: the report is computed, then written to the file.
\<close>

definition generate_summary_report ::
  "'c world \<Rightarrow> json list \<Rightarrow> event list \<Rightarrow> (py_error + summary_report) \<times> event list" where
  "generate_summary_report w all_issues evs =
     (case summary_report_of all_issues of
        Inl e \<Rightarrow> (Inl e, evs)
      | Inr report \<Rightarrow>
          if write_ok w then (Inr report, evs @ [WriteReport])
          else (Inl OSError, evs @ [WriteReport]))"

subsection \<open>The issue reporter\<close>

text \<open>\<^verbatim>\<open>color_map.get(label_name, 'c5def5')\<close> of \<^verbatim>\<open>label_exists\<close>.\<close>

definition label_color :: "label \<Rightarrow> string" where
  "label_color label_name =
     (if label_name = SeverityLabel (JStr ''critical'') then ''d73a4a''
      else if label_name = SeverityLabel (JStr ''high'') then ''e99695''
      else if label_name = SeverityLabel (JStr ''medium'') then ''f9d71c''
      else if label_name = SeverityLabel (JStr ''low'') then ''7bbe48''
      else if label_name = ClaudeReviewLabel then ''0052cc''
      else if label_name = AutomatedLabel then ''bfdadc''
      else ''c5def5'')"

text \<open>
  \<^verbatim>\<open>label_exists\<close>: when \<^verbatim>\<open>get_label\<close> raises the label is created, and when that
  raises too the answer is \<^verbatim>\<open>False\<close>.
\<close>

definition label_exists ::
  "(event list \<Rightarrow> bool) \<Rightarrow> label \<Rightarrow> event list \<Rightarrow> bool \<times> event list" where
  "label_exists trk label_name evs =
     (let evs1 = evs @ [GetLabel label_name] in
      if trk evs1 then (True, evs1)
      else
        (let evs2 = evs1 @ [CreateLabel label_name (label_color label_name)] in
         (trk evs2, evs2)))"

text \<open>\<^verbatim>\<open>[l for l in labels if self.label_exists(l)]\<close>.\<close>

fun existing_labels ::
  "(event list \<Rightarrow> bool) \<Rightarrow> label list \<Rightarrow> event list \<Rightarrow> label list \<times> event list" where
  "existing_labels trk [] evs = ([], evs)"
| "existing_labels trk (l # ls) evs =
     (case label_exists trk l evs of
        (found, evs1) \<Rightarrow>
          (case existing_labels trk ls evs1 of
             (kept, evs2) \<Rightarrow> (if found then l # kept else kept, evs2)))"

text \<open>
  The loop of \<^verbatim>\<open>create_github_issues\<close> over \<^verbatim>\<open>critical_issues + high_issues\<close>. Its
  body is one \<^verbatim>\<open>try\<close>: \<^verbatim>\<open>issue['title']\<close> raises for an issue without the key (and
  for a value that is not a dict), \<^verbatim>\<open>.upper()\<close> for a severity that is not a str, and
  \<^verbatim>\<open>create_issue\<close> when the tracker refuses; each is caught and the loop goes on with
  the next issue.
\<close>

definition try_create_issue ::
  "(event list \<Rightarrow> bool) \<Rightarrow> json \<Rightarrow> event list \<Rightarrow> bool \<times> event list" where
  "try_create_issue trk issue evs =
     (case issue of
        JObj items \<Rightarrow>
          (case map_of items ''title'' of
             None \<Rightarrow> (False, evs)
           | Some title \<Rightarrow>
               (case (case map_of items ''severity'' of
                        Some v \<Rightarrow> v
                      | None \<Rightarrow> JStr ''unknown'') of
                  JStr sev \<Rightarrow>
                    (case existing_labels trk
                            [SeverityLabel (JStr sev),
                             CategoryLabel
                               (case map_of items ''category'' of
                                  Some cat \<Rightarrow> cat
                                | None \<Rightarrow> JStr ''general''),
                             ClaudeReviewLabel, AutomatedLabel] evs of
                       (labels, evs1) \<Rightarrow>
                         (let evs2 = evs1 @ [CreateIssue issue labels] in (trk evs2, evs2)))
                | _ \<Rightarrow> (False, evs)))
      | _ \<Rightarrow> (False, evs))"

fun create_each_issue ::
  "(event list \<Rightarrow> bool) \<Rightarrow> json list \<Rightarrow> json list \<Rightarrow> event list \<Rightarrow> json list \<times> event list" where
  "create_each_issue trk [] created_issues evs = (created_issues, evs)"
| "create_each_issue trk (issue # rest) created_issues evs =
     (case try_create_issue trk issue evs of
        (created, evs1) \<Rightarrow>
          create_each_issue trk rest
            (if created then created_issues @ [issue] else created_issues) evs1)"

text \<open>
  \<^verbatim>\<open>by_category[cat].append(issue)\<close>, after \<^verbatim>\<open>by_category[cat] = []\<close> for a new key.
\<close>

fun dict_append :: "'k \<Rightarrow> 'v \<Rightarrow> ('k \<times> 'v list) list \<Rightarrow> ('k \<times> 'v list) list" where
  "dict_append k v [] = [(k, [v])]"
| "dict_append k v ((k', vs) # rest) =
     (if k' = k then (k', vs @ [v]) # rest else (k', vs) # dict_append k v rest)"

text \<open>The first loop of \<^verbatim>\<open>create_summary_issue\<close>.\<close>

fun group_by_category ::
  "(json \<times> json list) list \<Rightarrow> json list \<Rightarrow> py_error + (json \<times> json list) list" where
  "group_by_category by_category [] = Inr by_category"
| "group_by_category by_category (issue # rest) =
     (case dict_get issue ''category'' (JStr ''general'') of
        Inl e \<Rightarrow> Inl e
      | Inr cat \<Rightarrow>
          if hashable cat then group_by_category (dict_append cat issue by_category) rest
          else Inl TypeError)"

text \<open>
  The second loop: a section for each category, headed by \<^verbatim>\<open>category.title()\<close> and
  the number of its issues, and listing \<^verbatim>\<open>cat_issues[:10]\<close>.
\<close>

fun summary_sections ::
  "(json \<times> json list) list \<Rightarrow> py_error + (string \<times> nat \<times> json list) list" where
  "summary_sections [] = Inr []"
| "summary_sections ((JStr category, cat_issues) # rest) =
     (case summary_sections rest of
        Inl e \<Rightarrow> Inl e
      | Inr sections \<Rightarrow> Inr ((category, length cat_issues, take 10 cat_issues) # sections))"
| "summary_sections ((_, cat_issues) # rest) = Inl AttributeError"

text \<open>
  \<^verbatim>\<open>create_summary_issue\<close>: the two loops are outside the \<^verbatim>\<open>try\<close>, the call of
  \<^verbatim>\<open>create_issue\<close> is inside it.
\<close>

definition create_summary_issue ::
  "(event list \<Rightarrow> bool) \<Rightarrow> json list \<Rightarrow> event list \<Rightarrow> (py_error + unit) \<times> event list" where
  "create_summary_issue trk issues evs =
     (case group_by_category [] issues of
        Inl e \<Rightarrow> (Inl e, evs)
      | Inr by_category \<Rightarrow>
          (case summary_sections by_category of
             Inl e \<Rightarrow> (Inl e, evs)
           | Inr sections \<Rightarrow>
               (let evs1 = evs @ [CreateSummaryIssue (length issues) sections] in
                if trk evs1 then (Inr (), evs1) else (Inr (), evs1))))"

text \<open>\<^verbatim>\<open>create_github_issues\<close>; it returns \<^verbatim>\<open>created_issues\<close>.\<close>

definition create_github_issues ::
  "(event list \<Rightarrow> bool) \<Rightarrow> json list \<Rightarrow> event list \<Rightarrow> (py_error + json list) \<times> event list" where
  "create_github_issues trk issues evs =
     (case severity_partition issues of
        Inl e \<Rightarrow> (Inl e, evs)
      | Inr (critical_issues, high_issues, other_issues) \<Rightarrow>
          (case create_each_issue trk (critical_issues @ high_issues) [] evs of
             (created_issues, evs1) \<Rightarrow>
               if other_issues \<noteq> []
               then
                 (case create_summary_issue trk other_issues evs1 of
                    (Inl e, evs2) \<Rightarrow> (Inl e, evs2)
                  | (Inr u, evs2) \<Rightarrow> (Inr created_issues, evs2))
               else (Inr created_issues, evs1)))"

subsection \<open>The run and the entry point\<close>

text \<open>\<^verbatim>\<open>not v\<close> for what \<^verbatim>\<open>os.environ.get\<close> returns: \<^verbatim>\<open>None\<close> or the empty str.\<close>

definition falsy :: "string option \<Rightarrow> bool" where
  "falsy v = (v = None \<or> v = Some [])"

text \<open>
  \<^verbatim>\<open>__init__\<close>; of the object it builds, the run reads \<^verbatim>\<open>review_type\<close> only.
\<close>

definition init :: "'c world \<Rightarrow> event list \<Rightarrow> (py_error + string) \<times> event list" where
  "init w evs =
     (let anthropic_key = environ w ''ANTHROPIC_API_KEY'';
          github_token = environ w ''GITHUB_TOKEN'';
          review_type = (case environ w ''REVIEW_TYPE'' of
                           Some v \<Rightarrow> v
                         | None \<Rightarrow> ''comprehensive'')
      in if falsy anthropic_key then (Inl ValueError, evs)
         else if falsy github_token then (Inl ValueError, evs)
         else if get_repo_ok w then (Inr review_type, evs @ [GetRepo])
         else (Inl RemoteError, evs @ [GetRepo]))"

text \<open>\<^verbatim>\<open>run\<close>; \<^verbatim>\<open>chunk_files_for_review\<close> is called with its default budget.\<close>

definition run :: "'c world \<Rightarrow> string \<Rightarrow> event list \<Rightarrow> (py_error + unit) \<times> event list" where
  "run w review_type evs =
     (let files = codebase_files w;
          evs1 = evs @ [CollectFiles];
          chunks = chunk_files_for_review files 50000
      in case review_all w review_type 1 chunks [] evs1 of
           (Inl e, evs2) \<Rightarrow> (Inl e, evs2)
         | (Inr all_issues, evs2) \<Rightarrow>
             (case generate_summary_report w all_issues evs2 of
                (Inl e, evs3) \<Rightarrow> (Inl e, evs3)
              | (Inr report, evs3) \<Rightarrow>
                  if all_issues \<noteq> []
                  then
                    (case create_github_issues (tracker w) all_issues evs3 of
                       (Inl e, evs4) \<Rightarrow> (Inl e, evs4)
                     | (Inr created_issues, evs4) \<Rightarrow> (Inr (), evs4))
                  else (Inr (), evs3)))"

text \<open>
  The entry point: the exit status of the process and what it did. An exception of
  \<^verbatim>\<open>__init__\<close> or of \<^verbatim>\<open>run\<close> ends in \<^verbatim>\<open>sys.exit(1)\<close>; a script that reaches its
  end exits with status 0.
\<close>

definition main :: "'c world \<Rightarrow> nat \<times> event list" where
  "main w =
     (case init w [] of
        (Inl e, evs) \<Rightarrow> (1, evs)
      | (Inr review_type, evs) \<Rightarrow>
          (case run w review_type evs of
             (Inl e, evs1) \<Rightarrow> (1, evs1)
           | (Inr u, evs1) \<Rightarrow> (0, evs1)))"

subsection \<open>Predicates and sample values for the statements\<close>

text \<open>A value that is a dict.\<close>

fun is_dict :: "json \<Rightarrow> bool" where
  "is_dict (JObj items) = True"
| "is_dict _ = False"

text \<open>The severity of an issue is one of the strings of \<open>wanted\<close>.\<close>

definition severity_in :: "string list \<Rightarrow> json \<Rightarrow> bool" where
  "severity_in wanted i =
     (case dict_get i ''severity'' JNull of
        Inl e \<Rightarrow> False
      | Inr sev \<Rightarrow> sev \<in> set (map JStr wanted))"

text \<open>Whether the severity of an issue is one of the four the script names.\<close>

definition known_severity :: "json \<Rightarrow> bool" where
  "known_severity i =
     (case dict_get i ''severity'' JNull of
        Inl e \<Rightarrow> False
      | Inr sev \<Rightarrow> sev \<in> set (map JStr [''critical'', ''high'', ''medium'', ''low'']))"

text \<open>A dict whose category, when it has one, is a str.\<close>

definition str_category :: "json \<Rightarrow> bool" where
  "str_category i =
     (case dict_get i ''category'' (JStr ''general'') of
        Inr (JStr s) \<Rightarrow> True
      | _ \<Rightarrow> False)"

text \<open>A file of \<open>n\<close> characters, an issue of a given severity, and a world around them.\<close>

definition example_file :: "nat \<Rightarrow> char SourceFile" where
  "example_file n = \<lparr>path = ''src/app.py'', content = replicate n (CHR ''x'')\<rparr>"

definition example_issue :: "string \<Rightarrow> json" where
  "example_issue sev =
     JObj [(''severity'', JStr sev), (''category'', JStr ''security''),
           (''title'', JStr ''eval of user input'')]"

definition example_response :: string where
  \<open>example_response =
     ''Here is my analysis: {"issues": [{"severity": "critical", "category": "security", "title": "eval of user input"}]} Thanks!''\<close>

text \<open>The same response with a smiley after it: one JSON object, and a closing brace more.\<close>

definition example_response_brace :: string where
  \<open>example_response_brace =
     ''Here is my analysis: {"issues": [{"severity": "critical", "category": "security", "title": "eval of user input"}]} Thanks! :-}''\<close>

definition example_loads :: "string \<Rightarrow> py_error + json" where
  \<open>example_loads s =
     (if s = ''{"issues": [{"severity": "critical", "category": "security", "title": "eval of user input"}]}''
      then Inr (JObj [(''issues'', JArr [example_issue ''critical''])])
      else Inl JSONDecodeError)\<close>

definition example_world ::
  "(py_error + string list) \<Rightarrow> (event list \<Rightarrow> bool) \<Rightarrow> char world" where
  "example_world reply trk =
     \<lparr>environ = [''ANTHROPIC_API_KEY'' \<mapsto> ''sk-test'', ''GITHUB_TOKEN'' \<mapsto> ''ghp-test''],
      get_repo_ok = True,
      codebase_files = [example_file 1000],
      api_reply = (\<lambda>n chunk. reply),
      json_loads = example_loads,
      write_ok = True,
      tracker = trk\<rparr>"

section \<open>Properties\<close>

subsection \<open>The batcher\<close>

lemma file_tokens_nonneg: "0 \<le> file_tokens f"
  by (simp add: file_tokens_def)

lemma batch_tokens_snoc:
  "batch_tokens (batch @ [f]) = batch_tokens batch + file_tokens f"
  by (simp add: batch_tokens_def)

lemma concat_close_chunk_loop:
  "concat (close_chunks (chunk_loop m chunks cur sz files)) = concat chunks @ cur @ files"
  by (induction files arbitrary: chunks cur sz) auto

lemma chunk_loop_nonempty:
  "[] \<notin> set chunks \<Longrightarrow> [] \<notin> set (close_chunks (chunk_loop m chunks cur sz files))"
  by (induction files arbitrary: chunks cur sz) auto

text \<open>The loop keeps in \<^verbatim>\<open>current_size\<close> the estimate of \<^verbatim>\<open>current_chunk\<close>.\<close>

lemma chunk_loop_size:
  assumes "sz = batch_tokens cur"
    and "chunk_loop m chunks cur sz files = (chunks', cur', sz')"
  shows "sz' = batch_tokens cur'"
  using assms
proof (induction files arbitrary: chunks cur sz)
  case Nil
  then show ?case by auto
next
  case (Cons f fs)
  show ?case
  proof (cases "sz + file_tokens f > m")
    case True
    with Cons.prems(2) have
      "chunk_loop m (if cur \<noteq> [] then chunks @ [cur] else chunks) [f] (file_tokens f) fs
        = (chunks', cur', sz')"
      by simp
    moreover have "file_tokens f = batch_tokens [f]"
      by (simp add: batch_tokens_def)
    ultimately show ?thesis
      by (rule Cons.IH [rotated])
  next
    case False
    with Cons.prems(2) have
      "chunk_loop m chunks (cur @ [f]) (sz + file_tokens f) fs = (chunks', cur', sz')"
      by simp
    moreover have "sz + file_tokens f = batch_tokens (cur @ [f])"
      by (simp add: Cons.prems(1) batch_tokens_snoc)
    ultimately show ?thesis
      by (rule Cons.IH [rotated])
  qed
qed

text \<open>A chunk of two or more files never goes over the budget.\<close>

lemma chunk_loop_bound:
  assumes "sz = batch_tokens cur"
    and "2 \<le> length cur \<longrightarrow> batch_tokens cur \<le> m"
    and "\<forall>b \<in> set chunks. 2 \<le> length b \<longrightarrow> batch_tokens b \<le> m"
  shows "\<forall>b \<in> set (close_chunks (chunk_loop m chunks cur sz files)).
           2 \<le> length b \<longrightarrow> batch_tokens b \<le> m"
  using assms
proof (induction files arbitrary: chunks cur sz)
  case Nil
  then show ?case by auto
next
  case (Cons f fs)
  show ?case
  proof (cases "sz + file_tokens f > m")
    case True
    have "\<forall>b \<in> set (close_chunks (chunk_loop m
              (if cur \<noteq> [] then chunks @ [cur] else chunks) [f] (file_tokens f) fs)).
            2 \<le> length b \<longrightarrow> batch_tokens b \<le> m"
      by (rule Cons.IH) (use Cons.prems in \<open>auto simp: batch_tokens_def\<close>)
    with True show ?thesis by simp
  next
    case False
    have "\<forall>b \<in> set (close_chunks (chunk_loop m chunks (cur @ [f]) (sz + file_tokens f) fs)).
            2 \<le> length b \<longrightarrow> batch_tokens b \<le> m"
      by (rule Cons.IH) (use Cons.prems False in \<open>auto simp: batch_tokens_snoc\<close>)
    with False show ?thesis by simp
  qed
qed

text \<open>A chunk that was closed stays, and a current chunk over the budget is closed as it is.\<close>

lemma chunk_loop_keeps:
  "b \<in> set chunks \<Longrightarrow> b \<in> set (close_chunks (chunk_loop m chunks cur sz files))"
  by (induction files arbitrary: chunks cur sz) auto

lemma chunk_loop_closes_oversized:
  assumes "cur \<noteq> []" and "m < sz"
  shows "cur \<in> set (close_chunks (chunk_loop m chunks cur sz files))"
proof (cases files)
  case Nil
  with assms show ?thesis by simp
next
  case (Cons f fs)
  have "0 \<le> file_tokens f" by (rule file_tokens_nonneg)
  with assms have "sz + file_tokens f > m" by linarith
  with assms Cons show ?thesis
    by (simp add: chunk_loop_keeps)
qed

lemma chunk_loop_oversized:
  assumes "0 \<le> sz" and "f \<in> set files" and "m < file_tokens f"
  shows "[f] \<in> set (close_chunks (chunk_loop m chunks cur sz files))"
  using assms
proof (induction files arbitrary: chunks cur sz)
  case Nil
  then show ?case by simp
next
  case (Cons g gs)
  show ?case
  proof (cases "f = g")
    case True
    have "sz + file_tokens g > m" using True Cons.prems(1,3) by simp
    moreover have "[g] \<in> set (close_chunks (chunk_loop m
        (if cur \<noteq> [] then chunks @ [cur] else chunks) [g] (file_tokens g) gs))"
      by (rule chunk_loop_closes_oversized) (use True Cons.prems in auto)
    ultimately show ?thesis using True by simp
  next
    case False
    with Cons.prems have in_tl: "f \<in> set gs" by simp
    have nn: "0 \<le> file_tokens g" by (rule file_tokens_nonneg)
    show ?thesis
    proof (cases "sz + file_tokens g > m")
      case True
      have "[f] \<in> set (close_chunks (chunk_loop m
          (if cur \<noteq> [] then chunks @ [cur] else chunks) [g] (file_tokens g) gs))"
        by (rule Cons.IH [OF nn in_tl Cons.prems(3)])
      with True show ?thesis by simp
    next
      case False
      have "0 \<le> sz + file_tokens g" using nn Cons.prems(1) by linarith
      then have
        "[f] \<in> set (close_chunks (chunk_loop m chunks (cur @ [g]) (sz + file_tokens g) gs))"
        by (rule Cons.IH [OF _ in_tl Cons.prems(3)])
      with False show ?thesis by simp
    qed
  qed
qed

lemma floor_eq_ceiling_iff: "(int n div 4 = \<lceil>real n / 4\<rceil>) = (4 dvd n)"
proof -
  have "\<lceil>real_of_int (int n) / real_of_int 4\<rceil> = - (- int n div 4)"
    by (rule ceiling_divide_eq_div)
  then have "\<lceil>real n / 4\<rceil> = - (- int n div 4)" by simp
  moreover have "(int n div 4 = - (- int n div 4)) = (4 dvd int n)" by presburger
  ultimately show ?thesis by (simp add: int_dvd_int_iff [symmetric] del: int_dvd_int_iff)
qed

text \<open>
  C2, as the code has it. The estimate of a file is the floor of a quarter of the length
  of its content, not the ceiling: the two agree exactly when the length is a multiple
  of 4. The size the batcher holds for the chunk it is filling, after any number of
  files, is the sum of the estimates of the files of that chunk.
\<close>

theorem file_tokens_floor:
  "file_tokens f = \<lfloor>real (length (content f)) / 4\<rfloor>
   \<and> (file_tokens f = \<lceil>real (length (content f)) / 4\<rceil>) = (4 dvd length (content f))
   \<and> (case chunk_loop max_tokens [] [] 0 files of
        (chunks, current_chunk, current_size) \<Rightarrow> current_size = batch_tokens current_chunk)"
proof -
  have "\<lfloor>real (length (content f)) / real 4\<rfloor> = int (length (content f) div 4)"
    by (rule floor_divide_of_nat_eq)
  then have fl: "file_tokens f = \<lfloor>real (length (content f)) / 4\<rfloor>"
    by (simp add: file_tokens_def zdiv_int)
  have ce: "(file_tokens f = \<lceil>real (length (content f)) / 4\<rceil>) = (4 dvd length (content f))"
    unfolding file_tokens_def by (rule floor_eq_ceiling_iff)
  obtain chunks cur sz where r: "chunk_loop max_tokens [] [] 0 files = (chunks, cur, sz)"
    by (cases "chunk_loop max_tokens [] [] 0 files") auto
  have "sz = batch_tokens cur"
    by (rule chunk_loop_size [OF _ r]) (simp add: batch_tokens_def)
  with r fl ce show ?thesis by simp
qed

text \<open>
  C2, as the specification states it, fails: a file of one character is estimated at 0
  tokens, and the ceiling of 1/4 is 1.
\<close>

theorem file_tokens_not_ceiling:
  "file_tokens (example_file 1) \<noteq> \<lceil>real (length (content (example_file 1))) / 4\<rceil>
   \<and> file_tokens (example_file 1) = 0
   \<and> \<lceil>real (length (content (example_file 1))) / 4\<rceil> = 1"
proof -
  have "\<lceil>(1::real) / 4\<rceil> = 1"
    by (rule ceiling_unique) simp_all
  then show ?thesis
    by (simp add: file_tokens_def example_file_def)
qed

text \<open>
  C4. Whatever the files and the budget, a batch of two or more files has an estimate
  of at most the budget; so a batch over the budget has exactly one file; and a file
  whose own estimate is over the budget is not dropped: it is a batch by itself.
\<close>

theorem batches_within_budget:
  "(\<forall>batch \<in> set (chunk_files_for_review files max_tokens).
      2 \<le> length batch \<longrightarrow> batch_tokens batch \<le> max_tokens)
   \<and> (\<forall>batch \<in> set (chunk_files_for_review files max_tokens).
      max_tokens < batch_tokens batch \<longrightarrow> length batch = 1)
   \<and> (\<forall>f \<in> set files. max_tokens < file_tokens f \<longrightarrow>
         [f] \<in> set (chunk_files_for_review files max_tokens))"
proof -
  have a: "\<forall>batch \<in> set (chunk_files_for_review files max_tokens).
      2 \<le> length batch \<longrightarrow> batch_tokens batch \<le> max_tokens"
    unfolding chunk_files_for_review_def
    by (rule chunk_loop_bound) (simp_all add: batch_tokens_def)
  have ne: "[] \<notin> set (chunk_files_for_review files max_tokens)"
    by (simp add: chunk_files_for_review_def chunk_loop_nonempty)
  have b: "\<forall>batch \<in> set (chunk_files_for_review files max_tokens).
      max_tokens < batch_tokens batch \<longrightarrow> length batch = 1"
  proof (intro ballI impI)
    fix batch
    assume in_out: "batch \<in> set (chunk_files_for_review files max_tokens)"
      and over: "max_tokens < batch_tokens batch"
    from in_out ne have "batch \<noteq> []" by auto
    then have "1 \<le> length batch" by (cases batch) simp_all
    moreover from a in_out over have "\<not> 2 \<le> length batch" by fastforce
    ultimately show "length batch = 1" by linarith
  qed
  have c: "\<forall>f \<in> set files. max_tokens < file_tokens f \<longrightarrow>
         [f] \<in> set (chunk_files_for_review files max_tokens)"
    unfolding chunk_files_for_review_def
    by (auto intro: chunk_loop_oversized)
  from a b c show ?thesis by blast
qed

text \<open>
  An instance: with a budget of 5 tokens, two files of 8 characters (2 tokens each)
  share a batch, and a file of 40 characters (10 tokens) is a batch by itself.
\<close>

theorem batches_within_budget_witness:
  "chunk_files_for_review [example_file 8, example_file 8, example_file 40] 5
     = [[example_file 8, example_file 8], [example_file 40]]
   \<and> batch_tokens [example_file 8, example_file 8] \<le> 5
   \<and> 5 < file_tokens (example_file 40)
   \<and> [example_file 40]
       \<in> set (chunk_files_for_review [example_file 8, example_file 8, example_file 40] 5)"
  using batches_within_budget [of "[example_file 8, example_file 8, example_file 40]" 5]
  by (simp add: chunk_files_for_review_def file_tokens_def batch_tokens_def example_file_def)

text \<open>
  C5. The batches, put end to end in their order, are the list of files that was given:
  every file is in one batch, once, and in its place.
\<close>

theorem batches_concat: "concat (chunk_files_for_review files max_tokens) = files"
  by (simp add: chunk_files_for_review_def concat_close_chunk_loop)

text \<open>
  C7. With the budget of 50000 tokens, three files of 1000, 1000 and 210000 characters
  give two batches: the first two files, then the third, whose estimate alone is over
  the budget.
\<close>

theorem three_files_scenario:
  assumes "length (content f1) = 1000"
    and "length (content f2) = 1000"
    and "length (content f3) = 210000"
  shows "chunk_files_for_review [f1, f2, f3] 50000 = [[f1, f2], [f3]]
    \<and> 50000 < file_tokens f3"
  using assms by (simp add: chunk_files_for_review_def file_tokens_def)

theorem three_files_scenario_witness:
  "chunk_files_for_review [example_file 1000, example_file 1000, example_file 210000] 50000
     = [[example_file 1000, example_file 1000], [example_file 210000]]
   \<and> file_tokens (example_file 210000) = 52500"
proof -
  have "length (content (example_file 1000)) = 1000"
    and "length (content (example_file 210000)) = 210000"
    by (simp_all add: example_file_def)
  from three_files_scenario [OF this(1) this(1) this(2)] show ?thesis
    by (simp add: file_tokens_def example_file_def)
qed

text \<open>
  C10. No batch is empty, whatever the files and the budget, and no file gives no batch.
\<close>

theorem batches_nonempty:
  "[] \<notin> set (chunk_files_for_review files max_tokens)
   \<and> chunk_files_for_review [] max_tokens = []"
  by (simp add: chunk_files_for_review_def chunk_loop_nonempty)

subsection \<open>Issues and the summary report\<close>

lemma dict_get_Inr: "dict_get i k d = Inr v \<Longrightarrow> is_dict i"
  by (cases i) simp_all

lemma str_category_dict: "str_category i \<Longrightarrow> is_dict i"
  by (cases i) (simp_all add: str_category_def)

text \<open>The comprehension returns for a list of dicts, and only for one; it is a filter.\<close>

lemma select_severity_Inr:
  "select_severity wanted issues = Inr kept \<Longrightarrow>
     kept = filter (severity_in wanted) issues \<and> list_all is_dict issues"
proof (induction issues arbitrary: kept)
  case Nil
  then show ?case by simp
next
  case (Cons i rest)
  from Cons.prems obtain sev kept' where
    sev: "dict_get i ''severity'' JNull = Inr sev"
    and rest: "select_severity wanted rest = Inr kept'"
    and kept: "kept = (if sev \<in> set (map JStr wanted) then i # kept' else kept')"
    by (auto split: sum.splits)
  from Cons.IH [OF rest] sev kept show ?case
    by (auto simp: severity_in_def dest: dict_get_Inr)
qed

lemma select_severity_dicts:
  "list_all is_dict issues \<Longrightarrow>
     select_severity wanted issues = Inr (filter (severity_in wanted) issues)"
proof (induction issues)
  case Nil
  then show ?case by simp
next
  case (Cons i rest)
  then obtain items where "i = JObj items" by (cases i) simp_all
  with Cons show ?case
    by (simp add: severity_in_def)
qed

text \<open>An issue is counted under one severity at most, and under one when it is known.\<close>

lemma severity_in_exclusive:
  "\<not> (severity_in [''critical''] i \<and> severity_in [''high''] i)
   \<and> \<not> (severity_in [''critical''] i \<and> severity_in [''medium'', ''low''] i)
   \<and> \<not> (severity_in [''high''] i \<and> severity_in [''medium'', ''low''] i)
   \<and> \<not> (severity_in [''medium''] i \<and> severity_in [''low''] i)"
  by (cases i) (auto simp: severity_in_def)

lemma known_severity_iff:
  "known_severity i =
     (severity_in [''critical''] i \<or> severity_in [''high''] i \<or> severity_in [''medium'', ''low''] i)"
  by (cases i) (auto simp: severity_in_def known_severity_def)

lemma severity_in_medium_low:
  "severity_in [''medium'', ''low''] i = (severity_in [''medium''] i \<or> severity_in [''low''] i)"
  by (cases i) (auto simp: severity_in_def)

lemma bucket_lengths:
  "length (filter (severity_in [''critical'']) xs) + length (filter (severity_in [''high'']) xs)
   + length (filter (severity_in [''medium'', ''low'']) xs)
   = length (filter known_severity xs)"
proof (induction xs)
  case Nil
  then show ?case by simp
next
  case (Cons i xs)
  with severity_in_exclusive [of i] known_severity_iff [of i] show ?case
    by auto
qed

lemma medium_low_lengths:
  "length (filter (severity_in [''medium'']) xs) + length (filter (severity_in [''low'']) xs)
   = length (filter (severity_in [''medium'', ''low'']) xs)"
proof (induction xs)
  case Nil
  then show ?case by simp
next
  case (Cons i xs)
  with severity_in_exclusive [of i] severity_in_medium_low [of i] show ?case
    by auto
qed

text \<open>The counts of the categories grow by one for each issue.\<close>

lemma sum_dict_incr: "sum_list (map snd (dict_incr k cats)) = sum_list (map snd cats) + 1"
  by (induction k cats rule: dict_incr.induct) simp_all

lemma keys_dict_incr: "fst ` set (dict_incr k cats) = insert k (fst ` set cats)"
  by (induction k cats rule: dict_incr.induct) auto

lemma count_categories_sum:
  "count_categories cats issues = Inr cats' \<Longrightarrow>
     sum_list (map snd cats') = sum_list (map snd cats) + length issues"
proof (induction issues arbitrary: cats)
  case Nil
  then show ?case by simp
next
  case (Cons i rest)
  from Cons.prems obtain cat where
    "count_categories (dict_incr cat cats) rest = Inr cats'"
    by (auto split: sum.splits if_splits)
  from Cons.IH [OF this] show ?case
    by (simp add: sum_dict_incr)
qed

lemma count_categories_keys:
  "count_categories cats issues = Inr cats' \<Longrightarrow>
     fst ` set cats \<subseteq> fst ` set cats'
     \<and> (\<forall>i \<in> set issues. \<exists>cat. dict_get i ''category'' (JStr ''general'') = Inr cat
            \<and> cat \<in> fst ` set cats')"
proof (induction issues arbitrary: cats)
  case Nil
  then show ?case by simp
next
  case (Cons i rest)
  from Cons.prems obtain cat where
    cat: "dict_get i ''category'' (JStr ''general'') = Inr cat"
    and rest: "count_categories (dict_incr cat cats) rest = Inr cats'"
    by (auto split: sum.splits if_splits)
  from Cons.IH [OF rest] cat show ?case
    by (auto simp: keys_dict_incr)
qed

lemma str_category_get:
  "str_category i \<Longrightarrow> \<exists>s. dict_get i ''category'' (JStr ''general'') = Inr (JStr s)"
  by (auto simp: str_category_def split: sum.splits json.splits)

lemma count_categories_ok:
  assumes "\<forall>i \<in> set issues. str_category i"
    and "\<forall>k \<in> fst ` set cats. \<exists>s. k = JStr s"
  shows "\<exists>cats'. count_categories cats issues = Inr cats'
           \<and> (\<forall>k \<in> fst ` set cats'. \<exists>s. k = JStr s)"
  using assms
proof (induction issues arbitrary: cats)
  case Nil
  then show ?case by simp
next
  case (Cons i rest)
  from Cons.prems(1) obtain s where s: "dict_get i ''category'' (JStr ''general'') = Inr (JStr s)"
    by (auto dest: str_category_get)
  have "\<exists>cats'. count_categories (dict_incr (JStr s) cats) rest = Inr cats'
           \<and> (\<forall>k \<in> fst ` set cats'. \<exists>s. k = JStr s)"
    by (rule Cons.IH) (use Cons.prems in \<open>auto simp: keys_dict_incr\<close>)
  with s show ?case by simp
qed

text \<open>Sorting moves the counts and changes none.\<close>

lemma sum_insort_key:
  "sum_list (map (g :: 'a \<Rightarrow> nat) (insort_key f x xs)) = g x + sum_list (map g xs)"
  by (induction xs) simp_all

lemma sum_sort_key: "sum_list (map (g :: 'a \<Rightarrow> nat) (sort_key f xs)) = sum_list (map g xs)"
  by (induction xs) (simp_all add: sort_key_def sum_insort_key)

lemma category_lines_snd: "category_lines xs = Inr ls \<Longrightarrow> map snd ls = map snd xs"
proof (induction xs arbitrary: ls rule: category_lines.induct)
  case 1
  then show ?case by simp
next
  case (2 cat n rest)
  then show ?case by (auto split: sum.splits)
qed simp_all

lemma category_lines_keys:
  "category_lines xs = Inr ls \<Longrightarrow> \<forall>k \<in> fst ` set xs. \<exists>s. k = JStr s"
proof (induction xs arbitrary: ls rule: category_lines.induct)
  case 1
  then show ?case by simp
next
  case (2 cat n rest)
  then show ?case by (auto split: sum.splits)
qed simp_all

lemma category_lines_ok:
  "\<forall>k \<in> fst ` set xs. \<exists>s. k = JStr s \<Longrightarrow> \<exists>ls. category_lines xs = Inr ls"
proof (induction xs rule: category_lines.induct)
  case 1
  then show ?case by simp
next
  case (2 cat n rest)
  then show ?case by auto
qed auto

text \<open>The report is computed for a list of dicts with str categories, and only for one.\<close>

lemma summary_report_of_ok:
  assumes "list_all str_category issues"
  shows "\<exists>report. summary_report_of issues = Inr report"
proof -
  from assms have dicts: "list_all is_dict issues"
    by (auto simp: list_all_iff dest: str_category_dict)
  from assms have "\<forall>i \<in> set issues. str_category i"
    by (simp add: list_all_iff)
  from count_categories_ok [OF this, of "[]"] obtain categories where
    cats: "count_categories [] issues = Inr categories"
    and keys: "\<forall>k \<in> fst ` set categories. \<exists>s. k = JStr s"
    by auto
  from keys have "\<forall>k \<in> fst ` set (sort_key (\<lambda>x. - int (snd x)) categories). \<exists>s. k = JStr s"
    by simp
  from category_lines_ok [OF this] obtain ls where
    "category_lines (sort_key (\<lambda>x. - int (snd x)) categories) = Inr ls"
    by auto
  with cats show ?thesis
    by (simp add: summary_report_of_def select_severity_dicts [OF dicts])
qed

lemma summary_report_categories:
  assumes "summary_report_of issues = Inr r"
  shows "\<forall>i \<in> set issues. str_category i"
proof -
  from assms obtain categories ls where
    cats: "count_categories [] issues = Inr categories"
    and ls: "category_lines (sort_key (\<lambda>x. - int (snd x)) categories) = Inr ls"
    unfolding summary_report_of_def by (auto split: sum.splits)
  from category_lines_keys [OF ls] have "\<forall>k \<in> fst ` set categories. \<exists>s. k = JStr s"
    by simp
  with count_categories_keys [OF cats] show ?thesis
    by (fastforce simp: str_category_def)
qed

lemma summary_report_numbers:
  assumes "summary_report_of all_issues = Inr report"
  shows "total_issues report = length all_issues
    \<and> critical_count report + high_count report + medium_count report + low_count report
        = length (filter known_severity all_issues)
    \<and> sum_list (map snd (category_counts report)) = length all_issues"
proof -
  from assms obtain crit high medium low categories ls where
    c: "select_severity [''critical''] all_issues = Inr crit"
    and h: "select_severity [''high''] all_issues = Inr high"
    and m: "select_severity [''medium''] all_issues = Inr medium"
    and l: "select_severity [''low''] all_issues = Inr low"
    and cats: "count_categories [] all_issues = Inr categories"
    and ls: "category_lines (sort_key (\<lambda>x. - int (snd x)) categories) = Inr ls"
    and report: "report = \<lparr>total_issues = length all_issues, critical_count = length crit,
        high_count = length high, medium_count = length medium, low_count = length low,
        category_counts = ls\<rparr>"
    unfolding summary_report_of_def by (auto split: sum.splits)
  have sev: "critical_count report + high_count report + medium_count report + low_count report
        = length (filter known_severity all_issues)"
    using select_severity_Inr [OF c] select_severity_Inr [OF h] select_severity_Inr [OF m]
      select_severity_Inr [OF l] bucket_lengths [of all_issues] medium_low_lengths [of all_issues]
    by (simp add: report)
  have "sum_list (map snd ls) = sum_list (map snd (sort_key (\<lambda>x. - int (snd x)) categories))"
    using category_lines_snd [OF ls] by simp
  also have "\<dots> = sum_list (map snd categories)"
    by (rule sum_sort_key)
  also have "\<dots> = length all_issues"
    using count_categories_sum [OF cats] by simp
  finally have "sum_list (map snd (category_counts report)) = length all_issues"
    by (simp add: report)
  with sev show ?thesis by (simp add: report)
qed

text \<open>
  C1, as the code has it. For a list of issues that are dicts, the three lists are
  filters of the list on the severity: \<^verbatim>\<open>critical\<close>, \<^verbatim>\<open>high\<close>, and \<^verbatim>\<open>medium\<close> or
  \<^verbatim>\<open>low\<close>. No issue is in two of them, an issue of one of these four severities is
  in one of them, and an issue of another severity, or of none, is in none of them:
  it is not in \<^verbatim>\<open>other_issues\<close>.
\<close>

theorem severity_partition_buckets:
  assumes "list_all is_dict issues"
  shows "case severity_partition issues of
           Inl e \<Rightarrow> False
         | Inr (critical_issues, high_issues, other_issues) \<Rightarrow>
             critical_issues = filter (severity_in [''critical'']) issues
           \<and> high_issues = filter (severity_in [''high'']) issues
           \<and> other_issues = filter (severity_in [''medium'', ''low'']) issues
           \<and> length critical_issues + length high_issues + length other_issues
               = length (filter known_severity issues)
           \<and> (\<forall>i \<in> set issues.
                (i \<in> set critical_issues \<longrightarrow> i \<notin> set high_issues \<and> i \<notin> set other_issues)
              \<and> (i \<in> set high_issues \<longrightarrow> i \<notin> set other_issues)
              \<and> (known_severity i
                    = (i \<in> set critical_issues \<or> i \<in> set high_issues \<or> i \<in> set other_issues)))"
proof -
  have part: "severity_partition issues
      = Inr (filter (severity_in [''critical'']) issues, filter (severity_in [''high'']) issues,
             filter (severity_in [''medium'', ''low'']) issues)"
    by (simp add: severity_partition_def select_severity_dicts [OF assms])
  have "\<forall>i \<in> set issues.
      (severity_in [''critical''] i \<longrightarrow>
         \<not> severity_in [''high''] i \<and> \<not> severity_in [''medium'', ''low''] i)
    \<and> (severity_in [''high''] i \<longrightarrow> \<not> severity_in [''medium'', ''low''] i)
    \<and> (known_severity i
          = (severity_in [''critical''] i \<or> severity_in [''high''] i
             \<or> severity_in [''medium'', ''low''] i))"
    using severity_in_exclusive known_severity_iff by blast
  then show ?thesis
    unfolding part by (simp add: bucket_lengths)
qed

text \<open>
  An instance: of three issues of severities \<^verbatim>\<open>critical\<close>, \<^verbatim>\<open>low\<close> and \<^verbatim>\<open>info\<close>, the
  first is in \<^verbatim>\<open>critical_issues\<close>, the second in \<^verbatim>\<open>other_issues\<close> and the third in
  none of the three lists.
\<close>

theorem severity_partition_buckets_witness:
  "list_all is_dict [example_issue ''critical'', example_issue ''low'', example_issue ''info'']
   \<and> severity_partition
        [example_issue ''critical'', example_issue ''low'', example_issue ''info'']
       = Inr ([example_issue ''critical''], [], [example_issue ''low''])
   \<and> \<not> known_severity (example_issue ''info'')"
proof -
  have d: "list_all is_dict
      [example_issue ''critical'', example_issue ''low'', example_issue ''info'']"
    by (simp add: example_issue_def)
  have f: "filter (severity_in [''critical''])
        [example_issue ''critical'', example_issue ''low'', example_issue ''info'']
      = [example_issue ''critical'']"
    "filter (severity_in [''high''])
        [example_issue ''critical'', example_issue ''low'', example_issue ''info''] = []"
    "filter (severity_in [''medium'', ''low''])
        [example_issue ''critical'', example_issue ''low'', example_issue ''info'']
      = [example_issue ''low'']"
    by (simp_all add: severity_in_def example_issue_def)
  have k: "\<not> known_severity (example_issue ''info'')"
    by (simp add: known_severity_def example_issue_def)
  from severity_partition_buckets [OF d] d f k show ?thesis
    by (auto split: sum.splits)
qed

text \<open>
  C1, as the specification states it, fails: an issue of severity \<^verbatim>\<open>info\<close> is in none
  of the three lists, so it is not in the list of the other issues.
\<close>

theorem severity_partition_unknown_dropped:
  "severity_partition [example_issue ''info''] = Inr ([], [], [])"
  by (simp add: severity_partition_def example_issue_def)

text \<open>
  C3, as the code has it. For a list of issues that are dicts with a str for category
  (or none), the report is computed; its four counts by severity add up to the number of
  issues whose severity is one of the four, which is the total when every issue has
  such a severity; and its counts by category add up to the total.
\<close>

theorem summary_report_counts:
  assumes "list_all str_category all_issues"
  shows "case summary_report_of all_issues of
           Inl e \<Rightarrow> False
         | Inr report \<Rightarrow>
             total_issues report = length all_issues
           \<and> critical_count report + high_count report + medium_count report + low_count report
               = length (filter known_severity all_issues)
           \<and> (list_all known_severity all_issues \<longrightarrow>
                critical_count report + high_count report + medium_count report
                  + low_count report = total_issues report)
           \<and> sum_list (map snd (category_counts report)) = total_issues report"
proof -
  from summary_report_of_ok [OF assms] obtain report where
    r: "summary_report_of all_issues = Inr report"
    by auto
  have "list_all known_severity all_issues \<Longrightarrow>
      length (filter known_severity all_issues) = length all_issues"
    by (simp add: list_all_iff)
  with summary_report_numbers [OF r] show ?thesis
    unfolding r by auto
qed

text \<open>
  An instance: two issues of severities \<^verbatim>\<open>critical\<close> and \<^verbatim>\<open>low\<close>, both of category
  \<^verbatim>\<open>security\<close>.
\<close>

theorem summary_report_counts_witness:
  "list_all str_category [example_issue ''critical'', example_issue ''low'']
   \<and> list_all known_severity [example_issue ''critical'', example_issue ''low'']
   \<and> summary_report_of [example_issue ''critical'', example_issue ''low'']
       = Inr \<lparr>total_issues = 2, critical_count = 1, high_count = 0, medium_count = 0,
              low_count = 1, category_counts = [(''security'', 2)]\<rparr>"
proof -
  have s: "list_all str_category [example_issue ''critical'', example_issue ''low'']"
    by (simp add: str_category_def example_issue_def)
  have k: "list_all known_severity [example_issue ''critical'', example_issue ''low'']"
    by (simp add: known_severity_def example_issue_def)
  have r: "summary_report_of [example_issue ''critical'', example_issue ''low'']
       = Inr \<lparr>total_issues = 2, critical_count = 1, high_count = 0, medium_count = 0,
              low_count = 1, category_counts = [(''security'', 2)]\<rparr>"
    by (simp add: summary_report_of_def example_issue_def)
  from summary_report_counts [OF s] s k r show ?thesis
    by simp
qed

text \<open>
  C3, as the specification states it, fails: for one issue of severity \<^verbatim>\<open>info\<close> the
  four counts by severity add up to 0 and the total is 1.
\<close>

theorem summary_report_unknown_severity:
  "summary_report_of [example_issue ''info'']
     = Inr \<lparr>total_issues = 1, critical_count = 0, high_count = 0, medium_count = 0,
            low_count = 0, category_counts = [(''security'', 1)]\<rparr>"
  by (simp add: summary_report_of_def example_issue_def)

subsection \<open>The review client\<close>

text \<open>
  The search on a text with an opening brace that no opening brace precedes and a
  closing brace that no closing brace follows: the match runs from the one to the other.
\<close>

lemma re_search_braces_region:
  assumes "CHR ''{'' \<notin> set pre" and "CHR ''}'' \<notin> set post"
  shows "re_search_braces (pre @ CHR ''{'' # mid @ CHR ''}'' # post)
           = Some (CHR ''{'' # mid @ [CHR ''}''])"
proof -
  have d: "dropWhile (\<lambda>c. c \<noteq> CHR ''{'') (pre @ CHR ''{'' # mid @ CHR ''}'' # post)
             = CHR ''{'' # mid @ CHR ''}'' # post"
    using assms(1) by (auto simp: dropWhile_append3)
  have "dropWhile (\<lambda>c. c \<noteq> CHR ''}'') (rev post @ CHR ''}'' # rev mid) = CHR ''}'' # rev mid"
    using assms(2) by (auto simp: dropWhile_append3)
  then have r: "rev (dropWhile (\<lambda>c. c \<noteq> CHR ''}'') (rev (mid @ CHR ''}'' # post)))
             = mid @ [CHR ''}'']"
    by simp
  show ?thesis
    unfolding re_search_braces_def d using r by simp
qed

text \<open>A match needs an opening brace and a closing brace after it.\<close>

lemma re_search_braces_Some:
  assumes "re_search_braces t = Some m"
  shows "\<exists>a b c. t = a @ CHR ''{'' # b @ CHR ''}'' # c"
proof -
  from assms obtain c0 rest where
    d: "dropWhile (\<lambda>c. c \<noteq> CHR ''{'') t = c0 # rest" and cl: "CHR ''}'' \<in> set rest"
    unfolding re_search_braces_def by (auto split: list.splits if_splits)
  from d have "\<not> (hd (dropWhile (\<lambda>c. c \<noteq> CHR ''{'') t) \<noteq> CHR ''{'')"
    using hd_dropWhile [of "\<lambda>c. c \<noteq> CHR ''{''" t] by simp
  with d have op: "c0 = CHR ''{''" by simp
  from cl obtain b c where rest: "rest = b @ CHR ''}'' # c"
    by (auto dest: split_list)
  have "t = takeWhile (\<lambda>c. c \<noteq> CHR ''{'') t @ dropWhile (\<lambda>c. c \<noteq> CHR ''{'') t"
    by simp
  with d op rest have "t = takeWhile (\<lambda>c. c \<noteq> CHR ''{'') t @ CHR ''{'' # b @ CHR ''}'' # c"
    by simp
  then show ?thesis by blast
qed

lemma re_search_braces_None:
  "\<not> (\<exists>a b c. t = a @ CHR ''{'' # b @ CHR ''}'' # c) \<Longrightarrow> re_search_braces t = None"
  using re_search_braces_Some [of t] by (cases "re_search_braces t") auto

lemma example_search:
  \<open>re_search_braces example_response =
     Some ''{"issues": [{"severity": "critical", "category": "security", "title": "eval of user input"}]}''\<close>
  by (simp add: re_search_braces_def example_response_def)

text \<open>
  C6, as the code has it. The review type being one of the five, let the response text
  be a text without an opening brace, then one JSON object from its opening brace to
  its closing brace, then a text without a closing brace. When \<^verbatim>\<open>json.loads\<close> reads
  a dict from the text of the object and the dict has an array under \<^verbatim>\<open>issues\<close>, the
  extraction returns that array and nothing is raised, and \<^verbatim>\<open>review_chunk\<close> returns
  that array. When the response text has no opening brace with a closing brace after
  it, the extraction returns the empty list and nothing is raised, and
  \<^verbatim>\<open>review_chunk\<close> returns the empty list.
\<close>

theorem review_chunk_extraction:
  assumes "review_type \<in> set review_prompts"
  shows
    "(api_reply w n chunk = Inr ((pre @ CHR ''{'' # mid @ CHR ''}'' # post) # blocks)
        \<and> CHR ''{'' \<notin> set pre \<and> CHR ''}'' \<notin> set post
        \<and> json_loads w (CHR ''{'' # mid @ [CHR ''}'']) = Inr (JObj items)
        \<and> map_of items ''issues'' = Some (JArr issues)
      \<longrightarrow> review_chunk_try (json_loads w) (api_reply w n chunk) = Inr (JArr issues)
          \<and> review_chunk w review_type n chunk evs
              = (Inr (JArr issues), evs @ [ReviewRequest n]))
     \<and> (api_reply w n chunk = Inr (response_text # blocks)
        \<and> \<not> (\<exists>a b c. response_text = a @ CHR ''{'' # b @ CHR ''}'' # c)
      \<longrightarrow> review_chunk_try (json_loads w) (api_reply w n chunk) = Inr (JArr [])
          \<and> review_chunk w review_type n chunk evs
              = (Inr (JArr []), evs @ [ReviewRequest n]))"
  using assms
  by (simp add: review_chunk_def review_chunk_try_def re_search_braces_region
      re_search_braces_None)

text \<open>
  An instance of each half: an object between two sentences, and a text without braces.
\<close>

theorem review_chunk_extraction_witness:
  "review_chunk (example_world (Inr [example_response]) (\<lambda>evs. True)) ''comprehensive'' 1
      [example_file 1000] []
     = (Inr (JArr [example_issue ''critical'']), [ReviewRequest 1])
   \<and> review_chunk (example_world (Inr [''No findings.'']) (\<lambda>evs. True)) ''comprehensive'' 1
      [example_file 1000] []
     = (Inr (JArr []), [ReviewRequest 1])"
proof -
  have rt: "''comprehensive'' \<in> set review_prompts"
    by (simp add: review_prompts_def)
  have reply: \<open>api_reply (example_world (Inr [example_response]) (\<lambda>evs. True)) 1
        [example_file 1000]
      = Inr ((''Here is my analysis: '' @ CHR ''{'' #
          ''"issues": [{"severity": "critical", "category": "security", "title": "eval of user input"}]''
          @ CHR ''}'' # '' Thanks!'') # [])\<close>
    by (simp add: example_world_def example_response_def)
  have pre: "CHR ''{'' \<notin> set ''Here is my analysis: ''"
    and post: "CHR ''}'' \<notin> set '' Thanks!''"
    by simp_all
  have loads: \<open>json_loads (example_world (Inr [example_response]) (\<lambda>evs. True)) (CHR ''{'' #
        ''"issues": [{"severity": "critical", "category": "security", "title": "eval of user input"}]''
        @ [CHR ''}''])
      = Inr (JObj [(''issues'', JArr [example_issue ''critical''])])\<close>
    by (simp add: example_world_def example_loads_def)
  have issues: "map_of [(''issues'', JArr [example_issue ''critical''])] ''issues''
      = Some (JArr [example_issue ''critical''])"
    by simp
  have reply2: "api_reply (example_world (Inr [''No findings.'']) (\<lambda>evs. True)) 1
        [example_file 1000] = Inr (''No findings.'' # [])"
    by (simp add: example_world_def)
  have none: "\<not> (\<exists>a b c. ''No findings.'' = a @ CHR ''{'' # b @ CHR ''}'' # c)"
  proof
    assume "\<exists>a b c. ''No findings.'' = a @ CHR ''{'' # b @ CHR ''}'' # c"
    then obtain a b c where "''No findings.'' = a @ CHR ''{'' # b @ CHR ''}'' # c"
      by blast
    then have "CHR ''{'' \<in> set ''No findings.''"
      by (metis in_set_conv_decomp)
    then show False by simp
  qed
  from review_chunk_extraction [OF rt,
      where w = "example_world (Inr [example_response]) (\<lambda>evs. True)" and n = 1
      and chunk = "[example_file 1000]" and evs = "[]"
      and pre = "''Here is my analysis: ''" and post = "'' Thanks!''"
      and mid = \<open>''"issues": [{"severity": "critical", "category": "security", "title": "eval of user input"}]''\<close>
      and items = "[(''issues'', JArr [example_issue ''critical''])]"
      and issues = "[example_issue ''critical'']" and blocks = "[]"]
    reply pre post loads issues
  have first: "review_chunk (example_world (Inr [example_response]) (\<lambda>evs. True))
      ''comprehensive'' 1 [example_file 1000] []
     = (Inr (JArr [example_issue ''critical'']), [ReviewRequest 1])"
    by simp
  from review_chunk_extraction [OF rt,
      where w = "example_world (Inr [''No findings.'']) (\<lambda>evs. True)" and n = 1
      and chunk = "[example_file 1000]" and evs = "[]"
      and response_text = "''No findings.''" and blocks = "[]"]
    reply2 none
  have second: "review_chunk (example_world (Inr [''No findings.'']) (\<lambda>evs. True))
      ''comprehensive'' 1 [example_file 1000] []
     = (Inr (JArr []), [ReviewRequest 1])"
    by simp
  from first second show ?thesis by simp
qed

text \<open>
  C6, as the specification states it, fails. The response text holds one JSON object,
  which has an array of one issue under \<^verbatim>\<open>issues\<close>, and a smiley after it. The greedy
  search runs to the closing brace of the smiley, \<^verbatim>\<open>json.loads\<close> raises on what it
  is given, the exception is caught, and \<^verbatim>\<open>review_chunk\<close> returns the empty list, not
  the array.
\<close>

theorem review_chunk_stray_brace:
  \<open>re_search_braces example_response_brace =
     Some ''{"issues": [{"severity": "critical", "category": "security", "title": "eval of user input"}]} Thanks! :-}''
   \<and> example_loads
       ''{"issues": [{"severity": "critical", "category": "security", "title": "eval of user input"}]}''
     = Inr (JObj [(''issues'', JArr [example_issue ''critical''])])
   \<and> review_chunk_try example_loads (Inr [example_response_brace]) = Inl JSONDecodeError
   \<and> review_chunk (example_world (Inr [example_response_brace]) (\<lambda>evs. True))
       ''comprehensive'' 1 [example_file 1000] []
     = (Inr (JArr []), [ReviewRequest 1])\<close>
proof -
  have m: \<open>re_search_braces example_response_brace =
     Some ''{"issues": [{"severity": "critical", "category": "security", "title": "eval of user input"}]} Thanks! :-}''\<close>
    by (simp add: re_search_braces_def example_response_brace_def)
  have l: \<open>example_loads
       ''{"issues": [{"severity": "critical", "category": "security", "title": "eval of user input"}]}''
     = Inr (JObj [(''issues'', JArr [example_issue ''critical''])])\<close>
    by (simp add: example_loads_def)
  have t: "review_chunk_try example_loads (Inr [example_response_brace]) = Inl JSONDecodeError"
    by (simp add: review_chunk_try_def m example_loads_def)
  have r: "review_chunk (example_world (Inr [example_response_brace]) (\<lambda>evs. True))
       ''comprehensive'' 1 [example_file 1000] []
     = (Inr (JArr []), [ReviewRequest 1])"
    by (simp add: review_chunk_def review_prompts_def example_world_def t)
  from m l t r show ?thesis by simp
qed

text \<open>
  C8. The review type being one of the five, a failure of the review of a batch is an
  exception of the call of the service, a response text in which the search finds
  nothing, or an exception of \<^verbatim>\<open>json.loads\<close> on what the search found. In each case
  the review of the batch returns the empty list, and the loop of the run goes on to
  the next batch with the issues it had.
\<close>

theorem review_failure_no_issues:
  assumes "review_type \<in> set review_prompts"
    and "api_reply w n chunk = Inl e
      \<or> (\<exists>t blocks. api_reply w n chunk = Inr (t # blocks) \<and> re_search_braces t = None)
      \<or> (\<exists>t blocks m e'. api_reply w n chunk = Inr (t # blocks) \<and> re_search_braces t = Some m
            \<and> json_loads w m = Inl e')"
  shows "review_chunk w review_type n chunk evs = (Inr (JArr []), evs @ [ReviewRequest n])
    \<and> review_all w review_type n (chunk # chunks) all_issues evs
        = review_all w review_type (Suc n) chunks all_issues (evs @ [ReviewRequest n])"
proof -
  from assms(2) have "review_chunk_try (json_loads w) (api_reply w n chunk) = Inr (JArr [])
      \<or> (\<exists>e. review_chunk_try (json_loads w) (api_reply w n chunk) = Inl e)"
    by (auto simp: review_chunk_try_def)
  with assms(1) have
    r: "review_chunk w review_type n chunk evs = (Inr (JArr []), evs @ [ReviewRequest n])"
    by (auto simp: review_chunk_def)
  then show ?thesis by simp
qed

text \<open>
  An instance: the service is down for the first of two batches and answers for the
  second; the run has the issue of the second batch.
\<close>

theorem review_failure_no_issues_witness:
  "review_chunk (example_world (Inl RemoteError) (\<lambda>evs. True)) ''security'' 1
      [example_file 1000] [] = (Inr (JArr []), [ReviewRequest 1])
   \<and> review_all
       ((example_world (Inr [example_response]) (\<lambda>evs. True))
          \<lparr>api_reply := \<lambda>n chunk. if n = 1 then Inl RemoteError else Inr [example_response]\<rparr>)
       ''security'' 1 [[example_file 1000], [example_file 8]] [] []
     = (Inr [example_issue ''critical''], [ReviewRequest 1, ReviewRequest 2])"
proof -
  have rt: "''security'' \<in> set review_prompts"
    by (simp add: review_prompts_def)
  have down: "api_reply (example_world (Inl RemoteError) (\<lambda>evs. True)) 1 [example_file 1000]
      = Inl RemoteError"
    by (simp add: example_world_def)
  have down2: "api_reply
       ((example_world (Inr [example_response]) (\<lambda>evs. True))
          \<lparr>api_reply := \<lambda>n chunk. if n = 1 then Inl RemoteError else Inr [example_response]\<rparr>)
       1 [example_file 1000] = Inl RemoteError"
    by simp
  have second: "review_all
       ((example_world (Inr [example_response]) (\<lambda>evs. True))
          \<lparr>api_reply := \<lambda>n chunk. if n = 1 then Inl RemoteError else Inr [example_response]\<rparr>)
       ''security'' (Suc 1) [[example_file 8]] [] [ReviewRequest 1]
     = (Inr [example_issue ''critical''], [ReviewRequest 1, ReviewRequest 2])"
    by (simp add: review_chunk_def review_chunk_try_def example_search example_world_def
        example_loads_def review_prompts_def)
  from review_failure_no_issues [OF rt disjI1 [OF down], of "[]" "[]" "[]"]
    review_failure_no_issues [OF rt disjI1 [OF down2], of "[]" "[[example_file 8]]" "[]"]
    second
  show ?thesis
    by simp
qed

subsection \<open>The exit status\<close>

text \<open>The reviews and the report do not call the issue tracker.\<close>

lemma review_chunk_tracker:
  "review_chunk (w\<lparr>tracker := trk\<rparr>) rt n chunk evs = review_chunk w rt n chunk evs"
  by (simp add: review_chunk_def)

lemma review_all_tracker:
  "review_all (w\<lparr>tracker := trk\<rparr>) rt n chunks all_issues evs
     = review_all w rt n chunks all_issues evs"
  by (induction chunks arbitrary: n all_issues evs)
    (simp_all add: review_chunk_tracker split: prod.splits sum.splits)

lemma init_tracker: "init (w\<lparr>tracker := trk\<rparr>) evs = init w evs"
  by (simp add: init_def)

text \<open>
  The issues that a report was computed for are filed without an exception, whatever
  the issue tracker answers.
\<close>

lemma keys_dict_append: "fst ` set (dict_append k v groups) = insert k (fst ` set groups)"
  by (induction k v groups rule: dict_append.induct) auto

lemma group_by_category_ok:
  assumes "\<forall>i \<in> set issues. str_category i"
    and "\<forall>k \<in> fst ` set groups. \<exists>s. k = JStr s"
  shows "\<exists>g. group_by_category groups issues = Inr g \<and> (\<forall>k \<in> fst ` set g. \<exists>s. k = JStr s)"
  using assms
proof (induction issues arbitrary: groups)
  case Nil
  then show ?case by simp
next
  case (Cons i rest)
  from Cons.prems(1) obtain s where s: "dict_get i ''category'' (JStr ''general'') = Inr (JStr s)"
    by (auto dest: str_category_get)
  have "\<exists>g. group_by_category (dict_append (JStr s) i groups) rest = Inr g
      \<and> (\<forall>k \<in> fst ` set g. \<exists>s. k = JStr s)"
    by (rule Cons.IH) (use Cons.prems in \<open>auto simp: keys_dict_append\<close>)
  with s show ?case by simp
qed

lemma summary_sections_ok:
  "\<forall>k \<in> fst ` set g. \<exists>s. k = JStr s \<Longrightarrow> \<exists>sections. summary_sections g = Inr sections"
proof (induction g rule: summary_sections.induct)
  case 1
  then show ?case by simp
next
  case (2 category cat_issues rest)
  then show ?case by auto
qed auto

lemma create_summary_issue_ok:
  assumes "\<forall>i \<in> set issues. str_category i"
  shows "\<exists>evs'. create_summary_issue trk issues evs = (Inr (), evs')"
proof -
  from group_by_category_ok [OF assms, of "[]"] obtain g where
    g: "group_by_category [] issues = Inr g" and keys: "\<forall>k \<in> fst ` set g. \<exists>s. k = JStr s"
    by auto
  from summary_sections_ok [OF keys] obtain sections where "summary_sections g = Inr sections"
    by auto
  with g show ?thesis
    by (simp add: create_summary_issue_def Let_def)
qed

lemma create_github_issues_ok:
  assumes "summary_report_of issues = Inr r"
  shows "\<exists>created evs'. create_github_issues trk issues evs = (Inr created, evs')"
proof -
  from assms obtain crit where "select_severity [''critical''] issues = Inr crit"
    unfolding summary_report_of_def by (auto split: sum.splits)
  from select_severity_Inr [OF this] have dicts: "list_all is_dict issues"
    by simp
  have part: "severity_partition issues
      = Inr (filter (severity_in [''critical'']) issues, filter (severity_in [''high'']) issues,
             filter (severity_in [''medium'', ''low'']) issues)"
    by (simp add: severity_partition_def select_severity_dicts [OF dicts])
  obtain created evs1 where each: "create_each_issue trk
      (filter (severity_in [''critical'']) issues @ filter (severity_in [''high'']) issues) [] evs
      = (created, evs1)"
    by (cases "create_each_issue trk
      (filter (severity_in [''critical'']) issues @ filter (severity_in [''high'']) issues) [] evs")
  from summary_report_categories [OF assms]
  have "\<forall>i \<in> set (filter (severity_in [''medium'', ''low'']) issues). str_category i"
    by simp
  from create_summary_issue_ok [OF this, of trk evs1] obtain evs2 where
    "create_summary_issue trk (filter (severity_in [''medium'', ''low'']) issues) evs1
      = (Inr (), evs2)"
    by auto
  with part each show ?thesis
    by (simp add: create_github_issues_def)
qed

text \<open>
  The run returns when the reviews return and the report is computed and written; the
  answers of the issue tracker do not count.
\<close>

lemma run_returns_iff:
  "(\<exists>u evs'. run w rt evs = (Inr u, evs'))
    = (\<exists>all_issues evs2 report.
         review_all w rt 1 (chunk_files_for_review (codebase_files w) 50000) []
           (evs @ [CollectFiles]) = (Inr all_issues, evs2)
       \<and> summary_report_of all_issues = Inr report \<and> write_ok w)"
proof -
  obtain res evs2 where ra: "review_all w rt 1 (chunk_files_for_review (codebase_files w) 50000)
        [] (evs @ [CollectFiles]) = (res, evs2)"
    by (cases "review_all w rt 1 (chunk_files_for_review (codebase_files w) 50000)
        [] (evs @ [CollectFiles])")
  show ?thesis
  proof (cases res)
    case (Inl e)
    with ra show ?thesis by (simp add: run_def)
  next
    case (Inr all_issues)
    show ?thesis
    proof (cases "summary_report_of all_issues")
      case (Inl e)
      with ra Inr show ?thesis by (simp add: run_def generate_summary_report_def)
    next
      case rep: (Inr report)
      from create_github_issues_ok [OF rep, of "tracker w" "evs2 @ [WriteReport]"]
      obtain created evs4 where
        "create_github_issues (tracker w) all_issues (evs2 @ [WriteReport]) = (Inr created, evs4)"
        by auto
      with ra Inr rep show ?thesis
        by (simp add: run_def generate_summary_report_def)
    qed
  qed
qed

lemma run_tracker:
  "(\<exists>u evs'. run (w\<lparr>tracker := trk\<rparr>) rt evs = (Inr u, evs'))
    = (\<exists>u evs'. run w rt evs = (Inr u, evs'))"
  unfolding run_returns_iff by (simp add: review_all_tracker)

lemma main_status:
  "fst (main w) =
     (if \<exists>rt evs. init w [] = (Inr rt, evs) \<and> (\<exists>u evs'. run w rt evs = (Inr u, evs'))
      then 0 else 1)"
proof -
  obtain r evs where i: "init w [] = (r, evs)" by (cases "init w []")
  show ?thesis
  proof (cases r)
    case (Inl e)
    with i show ?thesis by (simp add: main_def)
  next
    case (Inr rt)
    obtain r2 evs1 where ru: "run w rt evs = (r2, evs1)" by (cases "run w rt evs")
    with i Inr show ?thesis
      by (cases r2) (simp_all add: main_def)
  qed
qed

text \<open>The sample world: one file, one batch, one critical issue found.\<close>

lemma example_chunks:
  "chunk_files_for_review [example_file 1000] 50000 = [[example_file 1000]]"
  by (simp add: chunk_files_for_review_def file_tokens_def example_file_def)

lemma example_review:
  "review_chunk (example_world (Inr [example_response]) trk) ''comprehensive'' n c evs
     = (Inr (JArr [example_issue ''critical'']), evs @ [ReviewRequest n])"
  by (simp add: review_chunk_def review_chunk_try_def example_search example_world_def
      example_loads_def review_prompts_def)

lemma example_report:
  "summary_report_of [example_issue ''critical''] =
     Inr \<lparr>total_issues = 1, critical_count = 1, high_count = 0, medium_count = 0,
          low_count = 0, category_counts = [(''security'', 1)]\<rparr>"
  by (simp add: summary_report_of_def example_issue_def)

lemma example_refused:
  "try_create_issue (\<lambda>evs. False) (example_issue ''critical'') evs =
     (False, evs @ [GetLabel (SeverityLabel (JStr ''critical'')),
       CreateLabel (SeverityLabel (JStr ''critical'')) ''d73a4a'',
       GetLabel (CategoryLabel (JStr ''security'')),
       CreateLabel (CategoryLabel (JStr ''security'')) ''c5def5'',
       GetLabel ClaudeReviewLabel, CreateLabel ClaudeReviewLabel ''0052cc'',
       GetLabel AutomatedLabel, CreateLabel AutomatedLabel ''bfdadc'',
       CreateIssue (example_issue ''critical'') []])"
  by (simp add: try_create_issue_def example_issue_def label_exists_def label_color_def)

lemma example_main_refused:
  "main (example_world (Inr [example_response]) (\<lambda>evs. False)) =
     (0, [GetRepo, CollectFiles, ReviewRequest 1, WriteReport,
          GetLabel (SeverityLabel (JStr ''critical'')),
          CreateLabel (SeverityLabel (JStr ''critical'')) ''d73a4a'',
          GetLabel (CategoryLabel (JStr ''security'')),
          CreateLabel (CategoryLabel (JStr ''security'')) ''c5def5'',
          GetLabel ClaudeReviewLabel, CreateLabel ClaudeReviewLabel ''0052cc'',
          GetLabel AutomatedLabel, CreateLabel AutomatedLabel ''bfdadc'',
          CreateIssue (example_issue ''critical'') []])"
proof -
  have i: "init (example_world (Inr [example_response]) (\<lambda>evs. False)) []
      = (Inr ''comprehensive'', [GetRepo])"
    by (simp add: init_def example_world_def falsy_def)
  have f: "codebase_files (example_world (Inr [example_response]) (\<lambda>evs. False))
        = [example_file 1000]"
    "write_ok (example_world (Inr [example_response]) (\<lambda>evs. False))"
    "tracker (example_world (Inr [example_response]) (\<lambda>evs. False)) = (\<lambda>evs. False)"
    by (simp_all add: example_world_def)
  have p: "severity_partition [example_issue ''critical'']
      = Inr ([example_issue ''critical''], [], [])"
    by (simp add: severity_partition_def example_issue_def)
  show ?thesis
    by (simp add: main_def i run_def f example_chunks example_review
        generate_summary_report_def example_report create_github_issues_def p example_refused)
qed

text \<open>
  C9. When one of the two credentials is absent from the environment, the exit status
  is 1 and the process has done nothing before. When \<^verbatim>\<open>__init__\<close> and \<^verbatim>\<open>run\<close>
  return, the exit status is 0. And the exit status does not depend on what the issue
  tracker answers to the calls for labels and issues: it is the same when every such
  call fails.
\<close>

theorem exit_status:
  "(environ w ''ANTHROPIC_API_KEY'' = None \<or> environ w ''GITHUB_TOKEN'' = None
      \<longrightarrow> main w = (1, []))
   \<and> (init w [] = (Inr review_type, evs) \<and> run w review_type evs = (Inr u, evs1)
      \<longrightarrow> main w = (0, evs1))
   \<and> fst (main (w\<lparr>tracker := trk\<rparr>)) = fst (main w)"
proof -
  have a: "environ w ''ANTHROPIC_API_KEY'' = None \<or> environ w ''GITHUB_TOKEN'' = None
      \<longrightarrow> main w = (1, [])"
    by (auto simp: main_def init_def falsy_def Let_def)
  have b: "init w [] = (Inr review_type, evs) \<and> run w review_type evs = (Inr u, evs1)
      \<longrightarrow> main w = (0, evs1)"
    by (simp add: main_def)
  have c: "fst (main (w\<lparr>tracker := trk\<rparr>)) = fst (main w)"
    unfolding main_status init_tracker run_tracker by simp
  from a b c show ?thesis by blast
qed

text \<open>
  Two instances. Without the token of the issue tracker the process exits with 1 at
  once. With both credentials, one critical issue found and an issue tracker that
  refuses every call, the process asks for each label, fails to create it, fails to
  create the issue, and exits with 0.
\<close>

theorem exit_status_witness:
  "main ((example_world (Inr [example_response]) (\<lambda>evs. True))
           \<lparr>environ := [''ANTHROPIC_API_KEY'' \<mapsto> ''sk-test'']\<rparr>) = (1, [])
   \<and> fst (main ((example_world (Inr [example_response]) (\<lambda>evs. True))
                  \<lparr>tracker := \<lambda>evs. False\<rparr>)) = 0
   \<and> fst (main (example_world (Inr [example_response]) (\<lambda>evs. True))) = 0"
proof -
  have absent: "environ ((example_world (Inr [example_response]) (\<lambda>evs. True))
           \<lparr>environ := [''ANTHROPIC_API_KEY'' \<mapsto> ''sk-test'']\<rparr>) ''GITHUB_TOKEN'' = None"
    by simp
  have same: "(example_world (Inr [example_response]) (\<lambda>evs. True))\<lparr>tracker := \<lambda>evs. False\<rparr>
      = example_world (Inr [example_response]) (\<lambda>evs. False)"
    by (simp add: example_world_def)
  from exit_status [of "(example_world (Inr [example_response]) (\<lambda>evs. True))
           \<lparr>environ := [''ANTHROPIC_API_KEY'' \<mapsto> ''sk-test'']\<rparr>"] absent
  have one: "main ((example_world (Inr [example_response]) (\<lambda>evs. True))
           \<lparr>environ := [''ANTHROPIC_API_KEY'' \<mapsto> ''sk-test'']\<rparr>) = (1, [])"
    by blast
  from exit_status [of "example_world (Inr [example_response]) (\<lambda>evs. True)" _ _ _ _
      "\<lambda>evs. False"]
  have "fst (main (example_world (Inr [example_response]) (\<lambda>evs. True)))
      = fst (main (example_world (Inr [example_response]) (\<lambda>evs. False)))"
    by (simp add: same)
  with one show ?thesis
    by (simp add: same example_main_refused)
qed

end
